theory Spec2Isabelle
  imports Main
begin

section \<open>Strings\<close>

text \<open>
  Python and JavaScript strings are modelled as \<^typ>\<open>string\<close>. The newline of the
  triple-quoted BibTeX template is the character \<open>0x0A\<close>.
\<close>

definition newline :: string where
  "newline = [CHR 0x0A]"

text \<open>\<^verbatim>\<open>sep.join(xs)\<close> of Python.\<close>

fun join_str :: "string \<Rightarrow> string list \<Rightarrow> string" where
  "join_str sep [] = []"
| "join_str sep [x] = x"
| "join_str sep (x # y # ys) = x @ sep @ join_str sep (y # ys)"

text \<open>
  \<^verbatim>\<open>s.split(c)\<close> of Python for a one-character separator: the result is never empty,
  so \<^verbatim>\<open>[-1]\<close> on it is its last element.
\<close>

fun split_on :: "char \<Rightarrow> string \<Rightarrow> string list" where
  "split_on c [] = [[]]"
| "split_on c (x # xs) =
     (if x = c then [] # split_on c xs
      else (case split_on c xs of [] \<Rightarrow> [[x]] | w # ws \<Rightarrow> (x # w) # ws))"

text \<open>
  \<^verbatim>\<open>s.strip()\<close> of Python: the white space of \<^verbatim>\<open>str.isspace\<close> among the code points
  below 256 is removed from both ends.
\<close>

definition isspace :: "char \<Rightarrow> bool" where
  "isspace c \<longleftrightarrow>
     (let n = (of_char c :: nat)
      in (9 \<le> n \<and> n \<le> 13) \<or> (28 \<le> n \<and> n \<le> 32) \<or> n = 133 \<or> n = 160)"

definition strip :: "string \<Rightarrow> string" where
  "strip s = rev (dropWhile isspace (rev (dropWhile isspace s)))"

text \<open>
  An f-string renders a value that may be \<^verbatim>\<open>None\<close> (the result of \<^verbatim>\<open>dict.get\<close> on an
  absent key) as the text \<^verbatim>\<open>None\<close>.
\<close>

fun fstr :: "string option \<Rightarrow> string" where
  "fstr None = ''None''"
| "fstr (Some s) = s"

text \<open>
  The decimal text JavaScript gives a non-negative integer in \<^verbatim>\<open>'p'+i\<close> and in a
  template literal.
\<close>

definition digit_char :: "nat \<Rightarrow> char" where
  "digit_char d = ''0123456789'' ! d"

fun string_of_nat :: "nat \<Rightarrow> string" where
  "string_of_nat n =
     (if n < 10 then [digit_char n]
      else string_of_nat (n div 10) @ [digit_char (n mod 10)])"

declare string_of_nat.simps [simp del]


section \<open>Errors\<close>

text \<open>
  The exceptions of the backend, each with the text \<^verbatim>\<open>str(e)\<close> gives: the failure of
  the HTTP request (transport error, or a status refused by \<^verbatim>\<open>raise_for_status\<close>),
  the \<^verbatim>\<open>AttributeError\<close> of an attribute read on \<^verbatim>\<open>None\<close>, and the \<^verbatim>\<open>TypeError\<close> of
  an operation applied to \<^verbatim>\<open>None\<close>.
\<close>

datatype py_error = HTTPError string | AttributeError string | TypeError string

fun str_of_error :: "py_error \<Rightarrow> string" where
  "str_of_error (HTTPError m) = m"
| "str_of_error (AttributeError m) = m"
| "str_of_error (TypeError m) = m"

definition quote :: string where
  "quote = [CHR 0x27]"

definition none_has_no :: "string \<Rightarrow> py_error" where
  "none_has_no attr =
     AttributeError (quote @ ''NoneType'' @ quote @ '' object has no attribute '' @ quote @ attr @ quote)"

record HTTPException =
  status_code :: nat
  detail :: string


section \<open>Data model\<close>

text \<open>
  A paper is a Python dict. Each key may be absent (\<open>None\<close> here, what \<^verbatim>\<open>dict.get\<close>
  returns); a key that is present carries the type \<^verbatim>\<open>fetch_arxiv_papers\<close> gives it.
  The key \<^verbatim>\<open>id\<close> is the field \<open>paper_id\<close>.
\<close>

record paper =
  paper_id :: "string option"
  title :: "string option"
  summary :: "string option"
  published :: "string option"
  authors :: "string list option"
  link :: "string option"

record citation =
  apa :: string
  bibtex :: string

text \<open>
  A digest as the client reads it (\<^verbatim>\<open>results.summaries[i].bullets\<close>): an object whose
  \<^verbatim>\<open>bullets\<close> may be absent, with the optional narrative the specification gives it.
\<close>

record digest =
  bullets :: "string list option"
  narrative :: "string option"


section \<open>The feed parser (\<^verbatim>\<open>fetch_arxiv_papers\<close>)\<close>

text \<open>
  The document BeautifulSoup hands back: text nodes and tags with their children, in
  document order. Attributes of tags are not read by the parser and are left out.
\<close>

datatype soup = NavigableString string | Tag string "soup list"

fun descendants :: "soup \<Rightarrow> soup list" where
  "descendants (NavigableString s) = []"
| "descendants (Tag n cs) = concat (map (\<lambda>c. c # descendants c) cs)"

fun is_tag :: "string \<Rightarrow> soup \<Rightarrow> bool" where
  "is_tag name (NavigableString s) = False"
| "is_tag name (Tag n cs) = (n = name)"

text \<open>\<^verbatim>\<open>tag.find_all(name)\<close>: every descendant tag of that name, in document order.\<close>

definition find_all :: "string \<Rightarrow> soup \<Rightarrow> soup list" where
  "find_all name t = filter (is_tag name) (descendants t)"

text \<open>\<^verbatim>\<open>tag.name\<close> as an attribute read: the first such descendant, or \<^verbatim>\<open>None\<close>.\<close>

definition find_tag :: "string \<Rightarrow> soup \<Rightarrow> soup option" where
  "find_tag name t = (case find_all name t of [] \<Rightarrow> None | x # _ \<Rightarrow> Some x)"

text \<open>\<^verbatim>\<open>.text\<close>: all the text below a node, concatenated.\<close>

fun get_text :: "soup \<Rightarrow> string" where
  "get_text (NavigableString s) = s"
| "get_text (Tag n cs) = concat (map get_text cs)"

text \<open>\<^verbatim>\<open>entry.name.text\<close>, which raises when the entry has no such child.\<close>

definition child_text :: "string \<Rightarrow> soup \<Rightarrow> py_error + string" where
  "child_text name entry =
     (case find_tag name entry of
        None \<Rightarrow> Inl (none_has_no ''text'')
      | Some t \<Rightarrow> Inr (get_text t))"

text \<open>The body of the loop: the dict of one entry, its values evaluated in order.\<close>

definition entry_paper :: "soup \<Rightarrow> py_error + paper" where
  "entry_paper entry =
     (let authors = map get_text (find_all ''author'' entry) in
      case child_text ''id'' entry of Inl e \<Rightarrow> Inl e | Inr i \<Rightarrow>
     (case child_text ''title'' entry of Inl e \<Rightarrow> Inl e | Inr t \<Rightarrow>
     (case child_text ''summary'' entry of Inl e \<Rightarrow> Inl e | Inr s \<Rightarrow>
     (case child_text ''published'' entry of Inl e \<Rightarrow> Inl e | Inr d \<Rightarrow>
     (case child_text ''id'' entry of Inl e \<Rightarrow> Inl e | Inr l \<Rightarrow>
        Inr \<lparr>paper_id = Some i, title = Some (strip t), summary = Some (strip s),
             published = Some d, authors = Some authors, link = Some l\<rparr>)))))"

fun entries_loop :: "soup list \<Rightarrow> paper list \<Rightarrow> py_error + paper list" where
  "entries_loop [] entries = Inr entries"
| "entries_loop (entry # rest) entries =
     (case entry_paper entry of
        Inl e \<Rightarrow> Inl e
      | Inr p \<Rightarrow> entries_loop rest (entries @ [p]))"

record params =
  p_search_query :: string
  p_start :: int
  p_max_results :: int
  p_sortBy :: string
  p_sortOrder :: string

text \<open>
  The feed is the world outside: the request either fails (a transport error, or a
  status \<^verbatim>\<open>raise_for_status\<close> refuses) or yields the parsed document.
\<close>

type_synonym feed = "params \<Rightarrow> py_error + soup"

definition arxiv_params :: "string \<Rightarrow> int \<Rightarrow> params" where
  "arxiv_params query max_results =
     \<lparr>p_search_query = ''all:'' @ query, p_start = 0, p_max_results = max_results,
      p_sortBy = ''submittedDate'', p_sortOrder = ''descending''\<rparr>"

definition fetch_arxiv_papers :: "feed \<Rightarrow> string \<Rightarrow> int \<Rightarrow> py_error + paper list" where
  "fetch_arxiv_papers get query max_results =
     (case get (arxiv_params query max_results) of
        Inl e \<Rightarrow> Inl e
      | Inr soup \<Rightarrow> entries_loop (find_all ''entry'' soup) [])"


section \<open>The citation formatter (\<^verbatim>\<open>format_citations\<close>)\<close>

definition author_str :: "paper \<Rightarrow> string" where
  "author_str paper = join_str '', '' (case authors paper of None \<Rightarrow> [] | Some a \<Rightarrow> a)"

definition year :: "paper \<Rightarrow> string" where
  "year paper =
     (let y = take 4 (case published paper of None \<Rightarrow> [] | Some d \<Rightarrow> d)
      in if y = [] then ''n.d.'' else y)"

definition format_citations :: "paper \<Rightarrow> py_error + citation" where
  "format_citations paper =
     (let apa = author_str paper @ '' ('' @ year paper @ ''). '' @ fstr (title paper)
                @ ''. arXiv. '' @ fstr (link paper)
      in case paper_id paper of
           None \<Rightarrow> Inl (none_has_no ''split'')
         | Some i \<Rightarrow>
             let key = last (split_on CHR ''/'' i);
                 bibtex = ''@article{'' @ key @ '','' @ newline
                   @ ''  title = {'' @ fstr (title paper) @ ''},'' @ newline
                   @ ''  author = {'' @ author_str paper @ ''},'' @ newline
                   @ ''  year = {'' @ year paper @ ''},'' @ newline
                   @ ''  howpublished = {arXiv:'' @ key @ ''},'' @ newline
                   @ ''  url = {'' @ fstr (link paper) @ ''}'' @ newline
                   @ ''}''
             in Inr \<lparr>apa = apa, bibtex = bibtex\<rparr>)"

text \<open>The list comprehension of \<^verbatim>\<open>search\<close>: the first paper that raises ends it.\<close>

fun format_all :: "paper list \<Rightarrow> py_error + citation list" where
  "format_all [] = Inr []"
| "format_all (p # ps) =
     (case format_citations p of
        Inl e \<Rightarrow> Inl e
      | Inr c \<Rightarrow> (case format_all ps of Inl e \<Rightarrow> Inl e | Inr cs \<Rightarrow> Inr (c # cs)))"


subsection \<open>Keys that hold \<^verbatim>\<open>None\<close>\<close>

text \<open>
  \<open>format_citations\<close> above is the formatter on the papers of the data model, whose keys
  are absent or hold a value of their type. A dict handed to the formatter may also hold
  the value \<^verbatim>\<open>None\<close> under a key: a key is absent, holds \<^verbatim>\<open>None\<close>, or holds a value.
\<close>

datatype 'a pyfield = Absent | PyNone | Val 'a

record paper_dict =
  d_id :: "string pyfield"
  d_title :: "string pyfield"
  d_summary :: "string pyfield"
  d_published :: "string pyfield"
  d_authors :: "string list pyfield"
  d_link :: "string pyfield"

text \<open>
  \<^verbatim>\<open>paper.get(key)\<close> gives \<^verbatim>\<open>None\<close> for an absent key and the stored value otherwise;
  \<^verbatim>\<open>paper.get(key, default)\<close> gives the default for an absent key only, so a stored
  \<^verbatim>\<open>None\<close> comes back as \<^verbatim>\<open>None\<close>.
\<close>

fun get_field :: "'a pyfield \<Rightarrow> 'a option" where
  "get_field Absent = None"
| "get_field PyNone = None"
| "get_field (Val v) = Some v"

fun get_default :: "'a pyfield \<Rightarrow> 'a \<Rightarrow> 'a option" where
  "get_default Absent dflt = Some dflt"
| "get_default PyNone dflt = None"
| "get_default (Val v) dflt = Some v"

text \<open>
  The \<^verbatim>\<open>TypeError\<close> of \<^verbatim>\<open>', '.join(None)\<close> and that of \<^verbatim>\<open>None[:4]\<close>.
\<close>

definition not_iterable :: py_error where
  "not_iterable = TypeError ''can only join an iterable''"

definition not_subscriptable :: py_error where
  "not_subscriptable = TypeError (quote @ ''NoneType'' @ quote @ '' object is not subscriptable'')"

text \<open>
  The same lines of \<^verbatim>\<open>format_citations\<close> on such a dict, in the order they run: the join
  of the authors, the year, the \<open>apa\<close> string, then the BibTeX entry with its
  \<^verbatim>\<open>paper.get('id').split('/')\<close>.
\<close>

definition format_citations_dict :: "paper_dict \<Rightarrow> py_error + citation" where
  "format_citations_dict paper =
     (case get_default (d_authors paper) [] of
        None \<Rightarrow> Inl not_iterable
      | Some names \<Rightarrow>
         (let joined = join_str '', '' names
          in (case get_default (d_published paper) [] of
                None \<Rightarrow> Inl not_subscriptable
              | Some pub \<Rightarrow>
                 (let yr = (if take 4 pub = [] then ''n.d.'' else take 4 pub);
                      apa = joined @ '' ('' @ yr @ ''). '' @ fstr (get_field (d_title paper))
                            @ ''. arXiv. '' @ fstr (get_field (d_link paper))
                  in (case get_field (d_id paper) of
                        None \<Rightarrow> Inl (none_has_no ''split'')
                      | Some i \<Rightarrow>
                         (let key = last (split_on CHR ''/'' i);
                              bibtex = ''@article{'' @ key @ '','' @ newline
                                @ ''  title = {'' @ fstr (get_field (d_title paper)) @ ''},'' @ newline
                                @ ''  author = {'' @ joined @ ''},'' @ newline
                                @ ''  year = {'' @ yr @ ''},'' @ newline
                                @ ''  howpublished = {arXiv:'' @ key @ ''},'' @ newline
                                @ ''  url = {'' @ fstr (get_field (d_link paper)) @ ''}'' @ newline
                                @ ''}''
                          in Inr \<lparr>apa = apa, bibtex = bibtex\<rparr>))))))"

text \<open>A paper of the data model as such a dict.\<close>

fun field_of :: "'a option \<Rightarrow> 'a pyfield" where
  "field_of None = Absent"
| "field_of (Some v) = Val v"

definition dict_of :: "paper \<Rightarrow> paper_dict" where
  "dict_of p =
     \<lparr>d_id = field_of (paper_id p), d_title = field_of (title p),
      d_summary = field_of (summary p), d_published = field_of (published p),
      d_authors = field_of (authors p), d_link = field_of (link p)\<rparr>"


section \<open>The summarizer (\<^verbatim>\<open>summarize_papers\<close>)\<close>

text \<open>
  Modelled from the spec: the source of \<^verbatim>\<open>summarize_papers\<close> is missing
  (\<^verbatim>\<open>backend/services/summarizer.py\<close> holds a placeholder), and with it the shape of
  the service's reply. The spec: the reply of the generative service for one paper is
  parsed into bullets and an optional narrative; the call can fail, and the reply can be
  unparseable. The service is the world outside: it answers the call made for the paper
  at a given index.
\<close>

datatype reply = CallFailed | Unparseable | Parsed "string list" "string option"

type_synonym service = "nat \<Rightarrow> paper \<Rightarrow> reply"

text \<open>
  Modelled from the spec: the empty form of a digest (zero bullets and an empty
  narrative), which no source file defines.
\<close>

definition empty_digest :: digest where
  "empty_digest = \<lparr>bullets = Some [], narrative = None\<rparr>"

text \<open>
  Modelled from the spec: the summarization of one paper, missing from the sources. The
  spec: each paper is summarized independently; a failed call or an unparseable reply
  degrades that paper's digest to the empty form.
\<close>

definition summarize_one :: "service \<Rightarrow> nat \<Rightarrow> paper \<Rightarrow> digest" where
  "summarize_one svc i p =
     (case svc i p of
        Parsed bs n \<Rightarrow> \<lparr>bullets = Some bs, narrative = n\<rparr>
      | _ \<Rightarrow> empty_digest)"

text \<open>
  Modelled from the spec: \<^verbatim>\<open>summarize_papers\<close>, missing from the sources. The spec: an
  ordered sequence of digests, positionally aligned to the input, one per paper; a
  failure for one paper never aborts the batch.
\<close>

definition summarize_papers :: "service \<Rightarrow> paper list \<Rightarrow> digest list" where
  "summarize_papers svc papers = map (\<lambda>(i, p). summarize_one svc i p) (enumerate 0 papers)"


section \<open>The orchestrator (\<^verbatim>\<open>search\<close>)\<close>

record SearchRequest =
  query :: string
  max_results :: int

text \<open>The response is a dict literal: its keys in order, each with its value.\<close>

datatype field = Papers "paper list" | Summaries "digest list" | Citations "citation list"

type_synonym response = "(string \<times> field) list"

definition http_500 :: "py_error \<Rightarrow> HTTPException" where
  "http_500 e = \<lparr>status_code = 500, detail = str_of_error e\<rparr>"

definition search :: "service \<Rightarrow> feed \<Rightarrow> SearchRequest \<Rightarrow> HTTPException + response" where
  "search svc get req =
     (case fetch_arxiv_papers get (query req) (max_results req) of
        Inl e \<Rightarrow> Inl (http_500 e)
      | Inr papers \<Rightarrow>
          (let summaries = summarize_papers svc papers
           in (case format_all papers of
                 Inl e \<Rightarrow> Inl (http_500 e)
               | Inr citations \<Rightarrow>
                   Inr [(''papers'', Papers papers), (''summaries'', Summaries summaries),
                        (''citations'', Citations citations)])))"


section \<open>The mind map (\<^verbatim>\<open>buildFlowElements\<close>)\<close>

text \<open>
  The client reads the response as JSON: an entry of \<^verbatim>\<open>summaries\<close> may be \<^verbatim>\<open>null\<close>.
  Of a node, \<^verbatim>\<open>id\<close>, \<^verbatim>\<open>type\<close> and \<^verbatim>\<open>data.label\<close> are the fields \<open>node_id\<close>, \<open>node_type\<close>
  and \<open>label\<close> (a bullet node has no \<^verbatim>\<open>type\<close>), and \<^verbatim>\<open>position\<close> is the pair
  \<open>(x, y)\<close>; of an edge, \<^verbatim>\<open>id\<close> is the field \<open>edge_id\<close>.
\<close>

record results =
  papers :: "paper list"
  summaries :: "digest option list"
  citations :: "citation list"

record node =
  node_id :: string
  node_type :: "string option"
  label :: "string option"
  position :: "nat \<times> nat"

record edge =
  edge_id :: string
  source :: string
  target :: string

datatype element = Node node | Edge edge

text \<open>
  The identifiers: \<^verbatim>\<open>'p'+i\<close> of a paper node, the template literals \<open>p\<close>, \<open>i\<close>, \<open>b\<close>, \<open>j\<close>
  of a bullet node and \<open>e-\<close>, \<open>i\<close>, \<open>-\<close>, \<open>j\<close> of an edge.
\<close>

definition paper_key :: "nat \<Rightarrow> string" where
  "paper_key i = ''p'' @ string_of_nat i"

definition bullet_key :: "nat \<Rightarrow> nat \<Rightarrow> string" where
  "bullet_key i j = ''p'' @ string_of_nat i @ ''b'' @ string_of_nat j"

definition edge_key :: "nat \<Rightarrow> nat \<Rightarrow> string" where
  "edge_key i j = ''e-'' @ string_of_nat i @ ''-'' @ string_of_nat j"

definition paper_node :: "nat \<Rightarrow> paper \<Rightarrow> node" where
  "paper_node i p =
     \<lparr>node_id = paper_key i, node_type = Some ''default'', label = title p,
      position = (50, i * 80)\<rparr>"

definition bullet_node :: "nat \<Rightarrow> nat \<Rightarrow> string \<Rightarrow> node" where
  "bullet_node i j b =
     \<lparr>node_id = bullet_key i j, node_type = None, label = Some b,
      position = (350, i * 80 + j * 20)\<rparr>"

definition bullet_edge :: "nat \<Rightarrow> nat \<Rightarrow> edge" where
  "bullet_edge i j = \<lparr>edge_id = edge_key i j, source = paper_key i, target = bullet_key i j\<rparr>"

text \<open>
  \<^verbatim>\<open>(results.summaries[i] && results.summaries[i].bullets) || []\<close>: an index past the
  end of \<^verbatim>\<open>summaries\<close>, a \<^verbatim>\<open>null\<close> entry and an entry without bullets all give \<^verbatim>\<open>[]\<close>.
\<close>

definition bullets_at :: "results \<Rightarrow> nat \<Rightarrow> string list" where
  "bullets_at r i =
     (if i < length (summaries r)
      then (case summaries r ! i of
              None \<Rightarrow> []
            | Some d \<Rightarrow> (case bullets d of None \<Rightarrow> [] | Some bs \<Rightarrow> bs))
      else [])"

text \<open>The two \<^verbatim>\<open>forEach\<close> loops, pushing onto \<^verbatim>\<open>nodes\<close> and \<^verbatim>\<open>edges\<close>.\<close>

fun bullets_forEach ::
  "nat \<Rightarrow> nat \<Rightarrow> string list \<Rightarrow> node list \<times> edge list \<Rightarrow> node list \<times> edge list" where
  "bullets_forEach i j [] st = st"
| "bullets_forEach i j (b # bs) (nodes, edges) =
     bullets_forEach i (Suc j) bs (nodes @ [bullet_node i j b], edges @ [bullet_edge i j])"

fun papers_forEach ::
  "results \<Rightarrow> nat \<Rightarrow> paper list \<Rightarrow> node list \<times> edge list \<Rightarrow> node list \<times> edge list" where
  "papers_forEach r i [] st = st"
| "papers_forEach r i (p # ps) (nodes, edges) =
     papers_forEach r (Suc i) ps
       (bullets_forEach i 0 (bullets_at r i) (nodes @ [paper_node i p], edges))"

definition build :: "results \<Rightarrow> node list \<times> edge list" where
  "build r = papers_forEach r 0 (papers r) ([], [])"

definition buildFlowElements :: "results option \<Rightarrow> element list" where
  "buildFlowElements results =
     (case results of
        None \<Rightarrow> []
      | Some r \<Rightarrow> (let (nodes, edges) = build r in map Node nodes @ map Edge edges))"

section \<open>Predicates of the specification\<close>

text \<open>
  A valid 4-digit token, in the words of the specification: four characters, each a
  decimal digit.
\<close>

definition is_digit :: "char \<Rightarrow> bool" where
  "is_digit c \<longleftrightarrow> c \<in> set ''0123456789''"

definition four_digits :: "string \<Rightarrow> bool" where
  "four_digits s \<longleftrightarrow> length s = 4 \<and> list_all is_digit s"

text \<open>
  The key of a bullet node of the paper at index \<open>i\<close>: it starts with that paper's key
  followed by \<open>b\<close>.
\<close>

definition is_bullet_key :: "nat \<Rightarrow> string \<Rightarrow> bool" where
  "is_bullet_key i s \<longleftrightarrow> take (length (paper_key i @ ''b'')) s = paper_key i @ ''b''"

text \<open>The nodes and the edges of the returned list of elements.\<close>

fun nodes_of :: "element list \<Rightarrow> node list" where
  "nodes_of [] = []"
| "nodes_of (Node n # g) = n # nodes_of g"
| "nodes_of (Edge e # g) = nodes_of g"

fun edges_of :: "element list \<Rightarrow> edge list" where
  "edges_of [] = []"
| "edges_of (Node n # g) = edges_of g"
| "edges_of (Edge e # g) = e # edges_of g"

text \<open>What one pass of the outer loop pushes for the paper at index \<open>k\<close>.\<close>

definition block_nodes :: "results \<Rightarrow> nat \<Rightarrow> paper \<Rightarrow> node list" where
  "block_nodes r k p =
     paper_node k p # map (\<lambda>(j, b). bullet_node k j b) (enumerate 0 (bullets_at r k))"

definition block_edges :: "results \<Rightarrow> nat \<Rightarrow> paper \<Rightarrow> edge list" where
  "block_edges r k p = map (\<lambda>(j, b). bullet_edge k j) (enumerate 0 (bullets_at r k))"

text \<open>
  The shape of a response: the number of bullets of each paper. The keys and positions
  of the nodes, and the edges, written as functions of the indices alone.
\<close>

definition shape :: "results \<Rightarrow> nat list" where
  "shape r = map (\<lambda>i. length (bullets_at r i)) [0..<length (papers r)]"

definition keys_layout :: "nat list \<Rightarrow> (string \<times> nat \<times> nat) list" where
  "keys_layout bs =
     concat (map (\<lambda>(i, b). (paper_key i, 50, i * 80)
                    # map (\<lambda>j. (bullet_key i j, 350, i * 80 + j * 20)) [0..<b])
                 (enumerate 0 bs))"

definition edges_layout :: "nat list \<Rightarrow> edge list" where
  "edges_layout bs = concat (map (\<lambda>(i, b). map (bullet_edge i) [0..<b]) (enumerate 0 bs))"

text \<open>The service \<open>svc\<close>, except that the call for the paper at index \<open>k\<close> ends as \<open>r\<close>.\<close>

definition service_with :: "nat \<Rightarrow> reply \<Rightarrow> service \<Rightarrow> service" where
  "service_with k r svc = (\<lambda>i p. if i = k then r else svc i p)"

section \<open>Example inputs\<close>

text \<open>Feed entries: a complete one, one without a link element, one without an identifier.\<close>

definition entry_full :: soup where
  "entry_full =
     Tag ''entry''
       [Tag ''id'' [NavigableString ''http://arxiv.org/abs/2401.00001v1''],
        Tag ''published'' [NavigableString ''2024-01-01T00:00:00Z''],
        Tag ''title'' [NavigableString '' Graphs ''],
        Tag ''summary'' [NavigableString '' An abstract. ''],
        Tag ''author'' [Tag ''name'' [NavigableString ''Ann Lee'']],
        Tag ''link'' []]"

definition entry_no_link :: soup where
  "entry_no_link =
     Tag ''entry''
       [Tag ''id'' [NavigableString ''http://arxiv.org/abs/2401.00002v1''],
        Tag ''published'' [NavigableString ''2024-01-02T00:00:00Z''],
        Tag ''title'' [NavigableString ''Trees''],
        Tag ''summary'' [NavigableString ''Another abstract.''],
        Tag ''author'' [Tag ''name'' [NavigableString ''Bob Roy'']]]"

definition entry_no_id :: soup where
  "entry_no_id =
     Tag ''entry''
       [Tag ''published'' [NavigableString ''2024-01-03T00:00:00Z''],
        Tag ''title'' [NavigableString ''Paths''],
        Tag ''summary'' [NavigableString ''A third abstract.''],
        Tag ''link'' []]"

definition feed_of :: "soup list \<Rightarrow> feed" where
  "feed_of entries = (\<lambda>params. Inr (Tag ''feed'' entries))"

text \<open>The papers the parser makes of the first two entries, and their citations.\<close>

definition paper_full :: paper where
  "paper_full =
     \<lparr>paper_id = Some ''http://arxiv.org/abs/2401.00001v1'', title = Some ''Graphs'',
      summary = Some ''An abstract.'', published = Some ''2024-01-01T00:00:00Z'',
      authors = Some [''Ann Lee''], link = Some ''http://arxiv.org/abs/2401.00001v1''\<rparr>"

definition paper_no_link :: paper where
  "paper_no_link =
     \<lparr>paper_id = Some ''http://arxiv.org/abs/2401.00002v1'', title = Some ''Trees'',
      summary = Some ''Another abstract.'', published = Some ''2024-01-02T00:00:00Z'',
      authors = Some [''Bob Roy''], link = Some ''http://arxiv.org/abs/2401.00002v1''\<rparr>"

definition citation_full :: citation where
  "citation_full =
     \<lparr>apa = ''Ann Lee (2024). Graphs. arXiv. http://arxiv.org/abs/2401.00001v1'',
      bibtex = ''@article{2401.00001v1,'' @ newline
        @ ''  title = {Graphs},'' @ newline
        @ ''  author = {Ann Lee},'' @ newline
        @ ''  year = {2024},'' @ newline
        @ ''  howpublished = {arXiv:2401.00001v1},'' @ newline
        @ ''  url = {http://arxiv.org/abs/2401.00001v1}'' @ newline
        @ ''}''\<rparr>"

definition citation_no_link :: citation where
  "citation_no_link =
     \<lparr>apa = ''Bob Roy (2024). Trees. arXiv. http://arxiv.org/abs/2401.00002v1'',
      bibtex = ''@article{2401.00002v1,'' @ newline
        @ ''  title = {Trees},'' @ newline
        @ ''  author = {Bob Roy},'' @ newline
        @ ''  year = {2024},'' @ newline
        @ ''  howpublished = {arXiv:2401.00002v1},'' @ newline
        @ ''  url = {http://arxiv.org/abs/2401.00002v1}'' @ newline
        @ ''}''\<rparr>"

text \<open>Papers as the formatter may receive them: keys absent, or a date that is no year.\<close>

definition paper_rfc_date :: paper where
  "paper_rfc_date =
     \<lparr>paper_id = Some ''http://arxiv.org/abs/2401.00001v1'', title = Some ''Graphs'',
      summary = Some ''An abstract.'', published = Some ''Mon, 01 Jan 2024'',
      authors = Some [''Ann Lee''], link = Some ''http://arxiv.org/abs/2401.00001v1''\<rparr>"

definition paper_no_title :: paper where
  "paper_no_title =
     \<lparr>paper_id = Some ''http://arxiv.org/abs/2401.00001v1'', title = None,
      summary = Some ''An abstract.'', published = Some ''2024-01-01T00:00:00Z'',
      authors = Some [''Ann Lee''], link = Some ''http://arxiv.org/abs/2401.00001v1''\<rparr>"

definition paper_no_id :: paper where
  "paper_no_id =
     \<lparr>paper_id = None, title = Some ''Graphs'',
      summary = Some ''An abstract.'', published = Some ''2024-01-01T00:00:00Z'',
      authors = Some [''Ann Lee''], link = Some ''http://arxiv.org/abs/2401.00001v1''\<rparr>"

definition paper_no_authors :: paper where
  "paper_no_authors =
     \<lparr>paper_id = Some ''http://arxiv.org/abs/2401.00001v1'', title = Some ''Graphs'',
      summary = Some ''An abstract.'', published = Some ''2024-01-01T00:00:00Z'',
      authors = Some [], link = Some ''http://arxiv.org/abs/2401.00001v1''\<rparr>"

definition paper_two_authors :: paper where
  "paper_two_authors =
     \<lparr>paper_id = Some ''http://arxiv.org/abs/2401.00001v1'', title = Some ''Graphs'',
      summary = Some ''An abstract.'', published = Some ''2024-01-01T00:00:00Z'',
      authors = Some [''Ann Lee'', ''Bob Roy''], link = Some ''http://arxiv.org/abs/2401.00001v1''\<rparr>"

text \<open>Dicts with a key that holds \<^verbatim>\<open>None\<close>.\<close>

definition dict_published_none :: paper_dict where
  "dict_published_none =
     \<lparr>d_id = Val ''http://arxiv.org/abs/2401.00001v1'', d_title = Val ''Graphs'',
      d_summary = Val ''An abstract.'', d_published = PyNone,
      d_authors = Val [''Ann Lee''], d_link = Val ''http://arxiv.org/abs/2401.00001v1''\<rparr>"

definition dict_authors_none :: paper_dict where
  "dict_authors_none =
     \<lparr>d_id = Val ''http://arxiv.org/abs/2401.00001v1'', d_title = Val ''Graphs'',
      d_summary = Val ''An abstract.'', d_published = Val ''2024-01-01T00:00:00Z'',
      d_authors = PyNone, d_link = Val ''http://arxiv.org/abs/2401.00001v1''\<rparr>"

definition dict_id_none :: paper_dict where
  "dict_id_none =
     \<lparr>d_id = PyNone, d_title = Val ''Graphs'',
      d_summary = Val ''An abstract.'', d_published = Val ''2024-01-01T00:00:00Z'',
      d_authors = Val [''Ann Lee''], d_link = Val ''http://arxiv.org/abs/2401.00001v1''\<rparr>"

definition dict_title_none :: paper_dict where
  "dict_title_none =
     \<lparr>d_id = Val ''http://arxiv.org/abs/2401.00001v1'', d_title = PyNone,
      d_summary = Val ''An abstract.'', d_published = Absent,
      d_authors = Absent, d_link = Val ''http://arxiv.org/abs/2401.00001v1''\<rparr>"

text \<open>A service that always fails, one that always answers, and a request.\<close>

definition service_down :: service where
  "service_down = (\<lambda>i p. CallFailed)"

definition service_up :: service where
  "service_up = (\<lambda>i p. Parsed [''point one'', ''point two''] (Some ''A narrative.''))"

definition digest_up :: digest where
  "digest_up = \<lparr>bullets = Some [''point one'', ''point two''], narrative = Some ''A narrative.''\<rparr>"

definition request_two :: SearchRequest where
  "request_two = \<lparr>query = ''graphs'', max_results = 2\<rparr>"

text \<open>Responses as the client receives them.\<close>

definition results_two :: results where
  "results_two =
     \<lparr>papers = [paper_full, paper_no_link],
      summaries = [Some \<lparr>bullets = Some [''point one'', ''point two''], narrative = Some ''A narrative.''\<rparr>,
                   Some \<lparr>bullets = Some [], narrative = None\<rparr>],
      citations = []\<rparr>"

definition results_recited :: results where
  "results_recited = results_two\<lparr>citations := [\<lparr>apa = ''a'', bibtex = ''b''\<rparr>]\<rparr>"

definition results_other :: results where
  "results_other =
     \<lparr>papers = [paper_no_link, paper_full],
      summaries = [Some \<lparr>bullets = Some [''x'', ''y''], narrative = None\<rparr>, None],
      citations = [\<lparr>apa = ''a'', bibtex = ''b''\<rparr>]\<rparr>"

section \<open>The citation formatter\<close>

lemma split_on_nonempty: "split_on c s \<noteq> []"
  by (induction s) (auto split: list.splits)

text \<open>
  Claim C3, as the specification states it, fails: the year of a paper published
  \<open>Mon, 01 Jan 2024\<close> is \<open>Mon,\<close>, which is neither a 4-digit token nor \<open>n.d.\<close>.
\<close>

theorem C3_counterexample:
  "\<not> four_digits (take 4 ''Mon, 01 Jan 2024'') \<and>
   published paper_rfc_date = Some ''Mon, 01 Jan 2024'' \<and>
   year paper_rfc_date = ''Mon,'' \<and>
   map_sum id apa (format_citations paper_rfc_date) =
     Inr ''Ann Lee (Mon,). Graphs. arXiv. http://arxiv.org/abs/2401.00001v1''"
  by (simp add: paper_rfc_date_def year_def four_digits_def is_digit_def format_citations_def author_str_def Let_def)

text \<open>
  Claim C3, amended: the citation year is the first four characters of \<open>published\<close>
  (all of it when it is shorter) whenever \<open>published\<close> is present and not empty, and
  \<open>n.d.\<close> only when it is absent or empty; the digits are not checked. In particular the
  year is the leading 4-digit token when there is one.
\<close>

theorem year_first_four:
  "year p = (case published p of None \<Rightarrow> ''n.d.'' | Some d \<Rightarrow> if d = [] then ''n.d.'' else take 4 d)
   \<and> (\<forall>d. published p = Some d \<and> four_digits (take 4 d) \<longrightarrow> year p = take 4 d)"
  by (auto simp add: year_def Let_def four_digits_def split: option.splits)

theorem year_first_four_witness:
  "published paper_full = Some ''2024-01-01T00:00:00Z'' \<and>
   four_digits (take 4 ''2024-01-01T00:00:00Z'') \<and> year paper_full = ''2024''"
proof -
  have p: "published paper_full = Some ''2024-01-01T00:00:00Z''"
    by (simp add: paper_full_def)
  have d: "four_digits (take 4 ''2024-01-01T00:00:00Z'')"
    by (simp add: four_digits_def is_digit_def)
  from year_first_four [of paper_full] p d show ?thesis by simp
qed

lemma format_citations_dict_of: "format_citations_dict (dict_of p) = format_citations p"
  by (cases "authors p"; cases "published p"; cases "paper_id p"; cases "title p"; cases "link p")
     (simp_all add: format_citations_dict_def dict_of_def format_citations_def author_str_def year_def Let_def)

lemma format_citations_dict_isl:
  "isl (format_citations_dict d) \<longleftrightarrow>
     d_authors d = PyNone \<or> d_published d = PyNone \<or> d_id d = Absent \<or> d_id d = PyNone"
  by (cases "d_authors d"; cases "d_published d"; cases "d_id d")
     (simp_all add: format_citations_dict_def Let_def)

text \<open>
  Claim C5, as the specification states it, fails: a paper without a title is
  formatted (its title rendered as \<open>None\<close>), a paper without an id raises an
  \<open>AttributeError\<close>, and a dict with id and title whose \<open>published\<close> holds \<open>None\<close>
  raises a \<open>TypeError\<close>; there is no \<open>FormattingError\<close>.
\<close>

theorem C5_counterexample:
  "title paper_no_title = None \<and>
   map_sum id apa (format_citations paper_no_title) =
     Inr ''Ann Lee (2024). None. arXiv. http://arxiv.org/abs/2401.00001v1'' \<and>
   paper_id paper_no_id = None \<and>
   format_citations paper_no_id = Inl (AttributeError (quote @ ''NoneType'' @ quote @ '' object has no attribute '' @ quote @ ''split'' @ quote)) \<and>
   d_id dict_published_none = Val ''http://arxiv.org/abs/2401.00001v1'' \<and>
   d_title dict_published_none = Val ''Graphs'' \<and>
   format_citations_dict dict_published_none =
     Inl (TypeError (quote @ ''NoneType'' @ quote @ '' object is not subscriptable''))"
  by (simp add: paper_no_title_def paper_no_id_def format_citations_def none_has_no_def year_def
      author_str_def Let_def dict_published_none_def format_citations_dict_def not_subscriptable_def)

text \<open>
  Claim C5, amended: on a dict whose keys are absent, hold \<open>None\<close> or hold a value of
  their type, the citation formatter fails exactly when \<open>authors\<close> holds \<open>None\<close> (the
  \<open>TypeError\<close> of the join), when \<open>published\<close> holds \<open>None\<close> (the \<open>TypeError\<close> of the
  slice), or when the id is absent or \<open>None\<close> (the \<open>AttributeError\<close> of \<open>split\<close> on
  \<open>None\<close>), the first of these in this order giving the error; in every other case it
  succeeds, with or without a title. On the papers of the data model this is: it fails
  exactly when the id is absent, with that \<open>AttributeError\<close>.
\<close>

theorem format_citations_fails_iff:
  "(isl (format_citations_dict d) \<longleftrightarrow>
      d_authors d = PyNone \<or> d_published d = PyNone \<or> d_id d = Absent \<or> d_id d = PyNone) \<and>
   (\<forall>e. format_citations_dict d = Inl e \<longrightarrow>
        e = (if d_authors d = PyNone then not_iterable
             else if d_published d = PyNone then not_subscriptable
             else none_has_no ''split'')) \<and>
   format_citations_dict (dict_of p) = format_citations p \<and>
   isl (format_citations p) = (paper_id p = None) \<and>
   (\<forall>e. format_citations p = Inl e \<longrightarrow> e = none_has_no ''split'')"
proof -
  have 1: "isl (format_citations_dict d) \<longleftrightarrow>
      d_authors d = PyNone \<or> d_published d = PyNone \<or> d_id d = Absent \<or> d_id d = PyNone"
    by (rule format_citations_dict_isl)
  have 2: "\<forall>e. format_citations_dict d = Inl e \<longrightarrow>
        e = (if d_authors d = PyNone then not_iterable
             else if d_published d = PyNone then not_subscriptable
             else none_has_no ''split'')"
    by (cases "d_authors d"; cases "d_published d"; cases "d_id d")
       (simp_all add: format_citations_dict_def Let_def)
  have 3: "isl (format_citations p) = (paper_id p = None)"
    by (auto simp add: format_citations_def Let_def split: option.splits)
  have 4: "\<forall>e. format_citations p = Inl e \<longrightarrow> e = none_has_no ''split''"
    by (auto simp add: format_citations_def Let_def split: option.splits)
  show ?thesis
    using 1 2 3 4 format_citations_dict_of [of p] by blast
qed

theorem format_citations_fails_iff_witness:
  "format_citations_dict dict_authors_none = Inl not_iterable \<and>
   format_citations_dict dict_published_none = Inl not_subscriptable \<and>
   format_citations_dict dict_id_none = Inl (none_has_no ''split'') \<and>
   \<not> isl (format_citations_dict dict_title_none) \<and>
   \<not> isl (format_citations paper_no_title) \<and>
   format_citations paper_no_id = Inl (none_has_no ''split'')"
proof -
  have a: "format_citations_dict dict_authors_none = Inl not_iterable"
    using format_citations_fails_iff [of dict_authors_none]
    by (cases "format_citations_dict dict_authors_none") (simp_all add: dict_authors_none_def)
  have b: "format_citations_dict dict_published_none = Inl not_subscriptable"
    using format_citations_fails_iff [of dict_published_none]
    by (cases "format_citations_dict dict_published_none") (simp_all add: dict_published_none_def)
  have c: "format_citations_dict dict_id_none = Inl (none_has_no ''split'')"
    using format_citations_fails_iff [of dict_id_none]
    by (cases "format_citations_dict dict_id_none") (simp_all add: dict_id_none_def)
  have d: "\<not> isl (format_citations_dict dict_title_none)"
    using format_citations_fails_iff [of dict_title_none]
    by (simp add: dict_title_none_def)
  have e: "\<not> isl (format_citations paper_no_title)"
    using format_citations_fails_iff [of _ paper_no_title]
    by (simp add: paper_no_title_def)
  have f: "format_citations paper_no_id = Inl (none_has_no ''split'')"
    using format_citations_fails_iff [of _ paper_no_id]
    by (cases "format_citations paper_no_id") (simp_all add: paper_no_id_def)
  show ?thesis using a b c d e f by simp
qed

text \<open>
  Claim C7: for a paper with id, title and link, the \<open>apa\<close> string is the authors joined
  by \<open>, \<close> in their order, then \<open> (year). title. arXiv. link\<close>; with no authors the
  author segment is empty.
\<close>

theorem apa_format:
  "paper_id p = Some i \<Longrightarrow> title p = Some t \<Longrightarrow> link p = Some l \<Longrightarrow>
   map_sum id apa (format_citations p) =
     Inr (join_str '', '' (case authors p of None \<Rightarrow> [] | Some a \<Rightarrow> a)
          @ '' ('' @ year p @ ''). '' @ t @ ''. arXiv. '' @ l) \<and>
   (authors p = None \<or> authors p = Some [] \<longrightarrow>
      map_sum id apa (format_citations p) = Inr ('' ('' @ year p @ ''). '' @ t @ ''. arXiv. '' @ l))"
  by (auto simp add: format_citations_def author_str_def Let_def)

theorem apa_format_witness:
  "map_sum id apa (format_citations paper_two_authors) =
     Inr ''Ann Lee, Bob Roy (2024). Graphs. arXiv. http://arxiv.org/abs/2401.00001v1'' \<and>
   map_sum id apa (format_citations paper_no_authors) =
     Inr '' (2024). Graphs. arXiv. http://arxiv.org/abs/2401.00001v1''"
  using apa_format [of paper_two_authors "''http://arxiv.org/abs/2401.00001v1''" "''Graphs''" "''http://arxiv.org/abs/2401.00001v1''"]
    apa_format [of paper_no_authors "''http://arxiv.org/abs/2401.00001v1''" "''Graphs''" "''http://arxiv.org/abs/2401.00001v1''"]
  by (simp add: paper_two_authors_def paper_no_authors_def year_def)

section \<open>The feed parser\<close>

lemma find_all_feed [simp]: "find_all ''entry'' (Tag ''feed'' [entry_full, entry_no_link]) = [entry_full, entry_no_link]"
  by (simp add: find_all_def entry_full_def entry_no_link_def)

lemma isspace_simps [simp]: "isspace CHR '' ''" "\<not> isspace CHR ''G''" "\<not> isspace CHR ''s''"
   "\<not> isspace CHR ''A''" "\<not> isspace CHR ''.''" "\<not> isspace CHR ''T''"
  by (simp_all add: isspace_def)

lemma entry_paper_full: "entry_paper entry_full = Inr paper_full"
  by (simp add: entry_paper_def child_text_def find_tag_def find_all_def entry_full_def paper_full_def strip_def)

lemma entry_paper_no_link: "entry_paper entry_no_link = Inr paper_no_link"
  by (simp add: entry_paper_def child_text_def find_tag_def find_all_def entry_no_link_def paper_no_link_def strip_def)

lemma entry_paper_no_id: "entry_paper entry_no_id = Inl (none_has_no ''text'')"
  by (simp add: entry_paper_def child_text_def find_tag_def find_all_def entry_no_id_def)

lemma entries_loop_Inr:
  "entries_loop es acc = Inr ps \<longleftrightarrow>
     (\<exists>qs. ps = acc @ qs \<and> list_all2 (\<lambda>e p. entry_paper e = Inr p) es qs)"
proof (induction es arbitrary: acc)
  case Nil
  then show ?case by auto
next
  case (Cons e es)
  show ?case
  proof (cases "entry_paper e")
    case (Inl err)
    then show ?thesis by (auto simp: list_all2_Cons1)
  next
    case (Inr p)
    then show ?thesis by (auto simp: Cons.IH list_all2_Cons1)
  qed
qed

lemma entry_paper_error: "entry_paper e = Inl err \<Longrightarrow> err = none_has_no ''text''"
  by (auto simp: entry_paper_def child_text_def Let_def split: sum.splits option.splits)

lemma entries_loop_Inl:
  "entries_loop es acc = Inl err \<Longrightarrow> err = none_has_no ''text''"
  by (induction es arbitrary: acc) (auto split: sum.splits dest: entry_paper_error)

lemma entries_loop_no_id:
  "e \<in> set es \<Longrightarrow> find_tag ''id'' e = None \<Longrightarrow> entries_loop es acc = Inl (none_has_no ''text'')"
proof (induction es arbitrary: acc)
  case Nil
  then show ?case by simp
next
  case (Cons x xs)
  show ?case
  proof (cases "entry_paper x")
    case (Inl err)
    then show ?thesis using entry_paper_error by auto
  next
    case (Inr p)
    then have "x \<noteq> e" using Cons.prems(2) by (auto simp: entry_paper_def child_text_def)
    then show ?thesis using Cons Inr by auto
  qed
qed

lemma entry_paper_link: "entry_paper e = Inr p \<Longrightarrow> link p = paper_id p \<and> paper_id p \<noteq> None"
  by (auto simp: entry_paper_def Let_def split: sum.splits)

lemma entry_paper_Inr_iff:
  "(\<exists>p. entry_paper e = Inr p) \<longleftrightarrow>
     find_tag ''id'' e \<noteq> None \<and> find_tag ''title'' e \<noteq> None \<and>
     find_tag ''summary'' e \<noteq> None \<and> find_tag ''published'' e \<noteq> None"
  by (auto simp: entry_paper_def child_text_def Let_def split: sum.splits option.splits)

lemma fetch_two:
  "fetch_arxiv_papers (feed_of [entry_full, entry_no_link]) ''graphs'' 2 = Inr [paper_full, paper_no_link]"
  by (simp add: fetch_arxiv_papers_def feed_of_def entry_paper_full entry_paper_no_link)

text \<open>
  Claim C10: every paper the feed parser returns has its link equal to its id, which is
  present.
\<close>

theorem link_is_id:
  "fetch_arxiv_papers get q m = Inr ps \<Longrightarrow> p \<in> set ps \<Longrightarrow>
     link p = paper_id p \<and> paper_id p \<noteq> None"
proof -
  assume a: "fetch_arxiv_papers get q m = Inr ps" and b: "p \<in> set ps"
  from a obtain soup where "entries_loop (find_all ''entry'' soup) [] = Inr ps"
    by (auto simp: fetch_arxiv_papers_def split: sum.splits)
  then have "list_all2 (\<lambda>e p. entry_paper e = Inr p) (find_all ''entry'' soup) ps"
    by (simp add: entries_loop_Inr)
  with b obtain e where "entry_paper e = Inr p"
    by (auto simp: in_set_conv_nth list_all2_conv_all_nth)
  then show ?thesis by (rule entry_paper_link)
qed

theorem link_is_id_witness:
  "fetch_arxiv_papers (feed_of [entry_full, entry_no_link]) ''graphs'' 2 = Inr [paper_full, paper_no_link] \<and>
   link paper_no_link = paper_id paper_no_link \<and> paper_id paper_no_link \<noteq> None"
proof -
  have f: "fetch_arxiv_papers (feed_of [entry_full, entry_no_link]) ''graphs'' 2 = Inr [paper_full, paper_no_link]"
    by (simp add: fetch_arxiv_papers_def feed_of_def entry_paper_full entry_paper_no_link)
  have m: "paper_no_link \<in> set [paper_full, paper_no_link]" by simp
  from link_is_id [OF f m] f show ?thesis by simp
qed

text \<open>
  Claim C4, as the specification states it, fails: an entry without a link element is
  returned like any other, and an entry without an identifier makes the whole fetch
  fail.
\<close>

theorem C4_counterexample:
  "find_tag ''link'' entry_no_link = None \<and>
   fetch_arxiv_papers (feed_of [entry_full, entry_no_link]) ''graphs'' 2 = Inr [paper_full, paper_no_link] \<and>
   find_tag ''id'' entry_no_id = None \<and>
   fetch_arxiv_papers (feed_of [entry_full, entry_no_id]) ''graphs'' 2 =
     Inl (AttributeError (quote @ ''NoneType'' @ quote @ '' object has no attribute '' @ quote @ ''text'' @ quote))"
proof -
  have a: "find_tag ''link'' entry_no_link = None"
    by (simp add: find_tag_def find_all_def entry_no_link_def)
  have b: "fetch_arxiv_papers (feed_of [entry_full, entry_no_link]) ''graphs'' 2 = Inr [paper_full, paper_no_link]"
    by (simp add: fetch_arxiv_papers_def feed_of_def entry_paper_full entry_paper_no_link)
  have c: "find_tag ''id'' entry_no_id = None"
    by (simp add: find_tag_def find_all_def entry_no_id_def)
  have d: "find_all ''entry'' (Tag ''feed'' [entry_full, entry_no_id]) = [entry_full, entry_no_id]"
    by (simp add: find_all_def entry_full_def entry_no_id_def)
  have e: "fetch_arxiv_papers (feed_of [entry_full, entry_no_id]) ''graphs'' 2 = Inl (none_has_no ''text'')"
    by (simp add: fetch_arxiv_papers_def feed_of_def d entry_paper_full entry_paper_no_id)
  show ?thesis using a b c e by (simp add: none_has_no_def)
qed

text \<open>
  Claim C4, amended: the feed parser skips no entry. When the request succeeds, the
  fetch succeeds exactly when every entry has an identifier, a title, a summary and a
  publication date (a link element is not looked at), and it then returns one paper per
  entry, in feed order; an entry without an identifier makes the whole fetch fail with
  an \<open>AttributeError\<close>, which is the only error of a fetch whose request succeeded.
\<close>

theorem fetch_never_skips:
  assumes "get (arxiv_params q m) = Inr soup"
  shows "(fetch_arxiv_papers get q m = Inr ps \<longleftrightarrow>
            list_all2 (\<lambda>e p. entry_paper e = Inr p) (find_all ''entry'' soup) ps) \<and>
         (fetch_arxiv_papers get q m = Inr ps \<longrightarrow> length ps = length (find_all ''entry'' soup)) \<and>
         ((\<exists>e \<in> set (find_all ''entry'' soup). find_tag ''id'' e = None) \<longrightarrow>
            fetch_arxiv_papers get q m = Inl (none_has_no ''text'')) \<and>
         (\<forall>e. (\<exists>p. entry_paper e = Inr p) \<longleftrightarrow>
            find_tag ''id'' e \<noteq> None \<and> find_tag ''title'' e \<noteq> None \<and>
            find_tag ''summary'' e \<noteq> None \<and> find_tag ''published'' e \<noteq> None) \<and>
         (\<forall>err. fetch_arxiv_papers get q m = Inl err \<longrightarrow> err = none_has_no ''text'')"
proof -
  have f: "fetch_arxiv_papers get q m = entries_loop (find_all ''entry'' soup) []"
    using assms by (simp add: fetch_arxiv_papers_def)
  have 1: "fetch_arxiv_papers get q m = Inr ps \<longleftrightarrow>
            list_all2 (\<lambda>e p. entry_paper e = Inr p) (find_all ''entry'' soup) ps"
    by (simp add: f entries_loop_Inr)
  have 2: "fetch_arxiv_papers get q m = Inr ps \<longrightarrow> length ps = length (find_all ''entry'' soup)"
    using 1 by (auto dest: list_all2_lengthD)
  have 3: "(\<exists>e \<in> set (find_all ''entry'' soup). find_tag ''id'' e = None) \<longrightarrow>
            fetch_arxiv_papers get q m = Inl (none_has_no ''text'')"
    by (auto simp: f intro: entries_loop_no_id)
  have 4: "\<forall>err. fetch_arxiv_papers get q m = Inl err \<longrightarrow> err = none_has_no ''text''"
    by (auto simp: f dest: entries_loop_Inl)
  show ?thesis using 1 2 3 4 entry_paper_Inr_iff by blast
qed

theorem fetch_never_skips_witness:
  "list_all2 (\<lambda>e p. entry_paper e = Inr p) [entry_full, entry_no_link] [paper_full, paper_no_link] \<and>
   fetch_arxiv_papers (feed_of [entry_full, entry_no_link]) ''graphs'' 2 = Inr [paper_full, paper_no_link] \<and>
   length [paper_full, paper_no_link] = length (find_all ''entry'' (Tag ''feed'' [entry_full, entry_no_link])) \<and>
   find_tag ''id'' entry_no_id = None \<and>
   fetch_arxiv_papers (feed_of [entry_full, entry_no_id]) ''graphs'' 2 = Inl (none_has_no ''text'')"
proof -
  have a: "feed_of [entry_full, entry_no_link] (arxiv_params ''graphs'' 2) = Inr (Tag ''feed'' [entry_full, entry_no_link])"
    by (simp add: feed_of_def)
  have b: "feed_of [entry_full, entry_no_id] (arxiv_params ''graphs'' 2) = Inr (Tag ''feed'' [entry_full, entry_no_id])"
    by (simp add: feed_of_def)
  have c: "find_tag ''id'' entry_no_id = None"
    by (simp add: find_tag_def find_all_def entry_no_id_def)
  have d: "find_all ''entry'' (Tag ''feed'' [entry_full, entry_no_id]) = [entry_full, entry_no_id]"
    by (simp add: find_all_def entry_full_def entry_no_id_def)
  have l: "list_all2 (\<lambda>e p. entry_paper e = Inr p) [entry_full, entry_no_link] [paper_full, paper_no_link]"
    by (simp add: entry_paper_full entry_paper_no_link)
  note t1 = fetch_never_skips [where get = "feed_of [entry_full, entry_no_link]" and q = "''graphs''"
      and m = 2 and ps = "[paper_full, paper_no_link]", OF a]
  note t2 = fetch_never_skips [where get = "feed_of [entry_full, entry_no_id]" and q = "''graphs''"
      and m = 2 and ps = "[]", OF b]
  have f1: "fetch_arxiv_papers (feed_of [entry_full, entry_no_link]) ''graphs'' 2 = Inr [paper_full, paper_no_link]"
    using t1 [THEN conjunct1] l by simp
  have f2: "fetch_arxiv_papers (feed_of [entry_full, entry_no_id]) ''graphs'' 2 = Inl (none_has_no ''text'')"
    using t2 [THEN conjunct2, THEN conjunct2, THEN conjunct1] c d by simp
  show ?thesis using f1 f2 l c by simp
qed

section \<open>The orchestrator\<close>

lemma format_citations_full: "format_citations paper_full = Inr citation_full"
  by (simp add: format_citations_def paper_full_def citation_full_def year_def author_str_def Let_def)

lemma format_citations_no_link: "format_citations paper_no_link = Inr citation_no_link"
  by (simp add: format_citations_def paper_no_link_def citation_no_link_def year_def author_str_def Let_def)

lemma search_two_up:
  "search service_up (feed_of [entry_full, entry_no_link]) request_two =
     Inr [(''papers'', Papers [paper_full, paper_no_link]),
          (''summaries'', Summaries [digest_up, digest_up]),
          (''citations'', Citations [citation_full, citation_no_link])]"
  by (simp add: search_def request_two_def fetch_two format_citations_full format_citations_no_link
      summarize_papers_def summarize_one_def service_up_def digest_up_def)

lemma search_two_down:
  "search service_down (feed_of [entry_full, entry_no_link]) request_two =
     Inr [(''papers'', Papers [paper_full, paper_no_link]),
          (''summaries'', Summaries [empty_digest, empty_digest]),
          (''citations'', Citations [citation_full, citation_no_link])]"
  by (simp add: search_def request_two_def fetch_two format_citations_full format_citations_no_link
      summarize_papers_def summarize_one_def service_down_def)

lemma format_all_Inr:
  "format_all ps = Inr cs \<longleftrightarrow> list_all2 (\<lambda>p c. format_citations p = Inr c) ps cs"
proof (induction ps arbitrary: cs)
  case Nil
  then show ?case by auto
next
  case (Cons p ps)
  show ?case
  proof (cases "format_citations p")
    case (Inl e)
    then show ?thesis by (auto simp: list_all2_Cons1)
  next
    case c: (Inr c)
    show ?thesis
    proof (cases "format_all ps")
      case (Inl e)
      then have "\<not> list_all2 (\<lambda>p c. format_citations p = Inr c) ps ds" for ds
        using Cons.IH [of ds] by simp
      then show ?thesis using c Inl by (auto simp: list_all2_Cons1)
    next
      case (Inr ds)
      then have "list_all2 (\<lambda>p c. format_citations p = Inr c) ps es \<longleftrightarrow> es = ds" for es
        using Cons.IH [of es] by auto
      then show ?thesis using c Inr by (auto simp: list_all2_Cons1)
    qed
  qed
qed

lemma summarize_papers_length: "length (summarize_papers svc ps) = length ps"
  by (simp add: summarize_papers_def)

lemma summarize_papers_nth:
  "i < length ps \<Longrightarrow> summarize_papers svc ps ! i = summarize_one svc i (ps ! i)"
  by (simp add: summarize_papers_def nth_enumerate_eq)

lemma search_Inr:
  "search svc get req = Inr b \<longleftrightarrow>
     (\<exists>ps cs. fetch_arxiv_papers get (query req) (max_results req) = Inr ps \<and>
        format_all ps = Inr cs \<and>
        b = [(''papers'', Papers ps), (''summaries'', Summaries (summarize_papers svc ps)),
             (''citations'', Citations cs)])"
  by (auto simp: search_def Let_def split: sum.splits)

lemma summarize_papers_with:
  "k < length ps \<Longrightarrow> r = CallFailed \<or> r = Unparseable \<Longrightarrow>
   summarize_papers (service_with k r svc) ps = (summarize_papers svc ps)[k := empty_digest]"
  by (auto simp: list_eq_iff_nth_eq summarize_papers_length summarize_papers_nth nth_list_update
      summarize_one_def service_with_def)

text \<open>
  Claim C1: in the response of a successful search the papers, the summaries and the
  citations have the same length, and at every index the summary is the digest of the
  paper at that index and the citation is the citation of that paper.
\<close>

theorem search_aligned:
  assumes "search svc get req = Inr b"
  shows "\<exists>ps ss cs.
           b = [(''papers'', Papers ps), (''summaries'', Summaries ss), (''citations'', Citations cs)] \<and>
           length ss = length ps \<and> length cs = length ps \<and>
           (\<forall>i < length ps. ss ! i = summarize_one svc i (ps ! i) \<and>
                             format_citations (ps ! i) = Inr (cs ! i))"
proof -
  from assms obtain ps cs where
    b: "b = [(''papers'', Papers ps), (''summaries'', Summaries (summarize_papers svc ps)),
             (''citations'', Citations cs)]"
    and c: "format_all ps = Inr cs"
    by (auto simp: search_Inr)
  from c have l: "list_all2 (\<lambda>p c. format_citations p = Inr c) ps cs"
    by (simp add: format_all_Inr)
  then have "length cs = length ps" by (simp add: list_all2_lengthD)
  moreover from l have "\<forall>i < length ps. format_citations (ps ! i) = Inr (cs ! i)"
    by (simp add: list_all2_conv_all_nth)
  ultimately show ?thesis
    using b by (simp add: summarize_papers_length summarize_papers_nth)
qed

theorem search_aligned_witness:
  "search service_up (feed_of [entry_full, entry_no_link]) request_two =
     Inr [(''papers'', Papers [paper_full, paper_no_link]),
          (''summaries'', Summaries [digest_up, digest_up]),
          (''citations'', Citations [citation_full, citation_no_link])] \<and>
   [digest_up, digest_up] ! 1 = summarize_one service_up 1 ([paper_full, paper_no_link] ! 1) \<and>
   format_citations ([paper_full, paper_no_link] ! 1) = Inr ([citation_full, citation_no_link] ! 1)"
  using search_aligned [OF search_two_up] search_two_up by auto

text \<open>
  Claim C2, as the specification states it, fails: the response of a successful search
  has no \<open>graph\<close> field.
\<close>

theorem C2_counterexample:
  "search service_up (feed_of [entry_full, entry_no_link]) request_two =
     Inr [(''papers'', Papers [paper_full, paper_no_link]),
          (''summaries'', Summaries [digest_up, digest_up]),
          (''citations'', Citations [citation_full, citation_no_link])] \<and>
   map_of [(''papers'', Papers [paper_full, paper_no_link]),
          (''summaries'', Summaries [digest_up, digest_up]),
          (''citations'', Citations [citation_full, citation_no_link])] ''graph'' = None"
  using search_two_up by simp

text \<open>
  Claim C2, amended: the response of a successful search has exactly the three fields
  \<open>papers\<close>, \<open>summaries\<close> and \<open>citations\<close>, in this order; the graph is not part of
  it (the client builds it from the response with \<open>buildFlowElements\<close>).
\<close>

theorem search_fields:
  "search svc get req = Inr b \<Longrightarrow>
     map fst b = [''papers'', ''summaries'', ''citations''] \<and> map_of b ''graph'' = None"
  by (auto simp: search_Inr)

theorem search_fields_witness:
  "map fst [(''papers'', Papers [paper_full, paper_no_link]),
          (''summaries'', Summaries [empty_digest, empty_digest]),
          (''citations'', Citations [citation_full, citation_no_link])] = [''papers'', ''summaries'', ''citations''] \<and>
   map_of [(''papers'', Papers [paper_full, paper_no_link]),
          (''summaries'', Summaries [empty_digest, empty_digest]),
          (''citations'', Citations [citation_full, citation_no_link])] ''graph'' = None"
  using search_fields [OF search_two_down] by simp

text \<open>
  Claim C8: when, in a search that succeeds, the summarization call for the paper at
  index \<open>k\<close> is made to fail or to give an unparseable reply, the search still
  succeeds, with the same papers and citations; the summary at \<open>k\<close> is the empty digest
  and the summary at every other index is unchanged.
\<close>

theorem failure_isolated:
  assumes "search svc get req =
             Inr [(''papers'', Papers ps), (''summaries'', Summaries ss), (''citations'', Citations cs)]"
    and "k < length ps" and "r = CallFailed \<or> r = Unparseable"
  shows "search (service_with k r svc) get req =
           Inr [(''papers'', Papers ps), (''summaries'', Summaries (ss[k := empty_digest])),
                (''citations'', Citations cs)] \<and>
         ss[k := empty_digest] ! k = empty_digest \<and>
         (\<forall>i. i \<noteq> k \<longrightarrow> ss[k := empty_digest] ! i = ss ! i) \<and>
         (\<forall>svc'. \<not> isl (search svc' get req))"
proof -
  have "length ss = length ps"
    using assms(1) by (auto simp: search_Inr summarize_papers_length)
  then have "ss[k := empty_digest] ! k = empty_digest"
    using assms(2) by simp
  moreover have "search (service_with k r svc) get req =
           Inr [(''papers'', Papers ps), (''summaries'', Summaries (ss[k := empty_digest])),
                (''citations'', Citations cs)]"
    using assms by (auto simp: search_Inr summarize_papers_with)
  moreover have "\<not> isl (search svc' get req)" for svc'
  proof -
    from assms(1) obtain b where "search svc' get req = Inr b"
      by (auto simp: search_Inr)
    then show ?thesis by simp
  qed
  ultimately show ?thesis by simp
qed

theorem failure_isolated_witness:
  "search (service_with 0 Unparseable service_up) (feed_of [entry_full, entry_no_link]) request_two =
     Inr [(''papers'', Papers [paper_full, paper_no_link]),
          (''summaries'', Summaries [empty_digest, digest_up]),
          (''citations'', Citations [citation_full, citation_no_link])] \<and>
   \<not> isl (search service_down (feed_of [entry_full, entry_no_link]) request_two)"
  using failure_isolated [OF search_two_up, of 0 Unparseable] by simp


section \<open>The mind map\<close>

subsection \<open>Keys\<close>

lemma digit_char_code: "d < 10 \<Longrightarrow> (of_char (digit_char d) :: nat) = 48 + d"
proof -
  assume "d < 10"
  then have "d = 0 \<or> d = 1 \<or> d = 2 \<or> d = 3 \<or> d = 4 \<or> d = 5 \<or> d = 6 \<or> d = 7 \<or> d = 8 \<or> d = 9"
    by arith
  then show ?thesis
    by (elim disjE) (simp_all add: digit_char_def)
qed

lemma digit_char_inj: "d < 10 \<Longrightarrow> e < 10 \<Longrightarrow> digit_char d = digit_char e \<Longrightarrow> d = e"
proof -
  assume d: "d < 10" and e: "e < 10" and eq: "digit_char d = digit_char e"
  have "(48 + d :: nat) = of_char (digit_char d)" using d by (simp only: digit_char_code)
  also have "\<dots> = of_char (digit_char e)" by (simp only: eq)
  also have "\<dots> = 48 + e" using e by (simp only: digit_char_code)
  finally show "d = e" by arith
qed

lemma digit_char_not_b: "d < 10 \<Longrightarrow> digit_char d \<noteq> CHR ''b''"
proof
  assume d: "d < 10" and eq: "digit_char d = CHR ''b''"
  have "(48 + d :: nat) = of_char (digit_char d)" using d by (simp only: digit_char_code)
  also have "\<dots> = 98" by (simp add: eq)
  finally show False using d by arith
qed

lemma string_of_nat_nonempty: "string_of_nat n \<noteq> []"
  by (subst string_of_nat.simps) simp

lemma string_of_nat_no_b: "CHR ''b'' \<notin> set (string_of_nat n)"
proof (induction n rule: string_of_nat.induct)
  case (1 n)
  show ?case
  proof (cases "n < 10")
    case True
    then show ?thesis
      using digit_char_not_b [of n] by (subst string_of_nat.simps) auto
  next
    case False
    then show ?thesis
      using 1 digit_char_not_b [of "n mod 10"] by (subst string_of_nat.simps) auto
  qed
qed

lemma string_of_nat_inj: "string_of_nat n = string_of_nat m \<Longrightarrow> n = m"
proof (induction n arbitrary: m rule: string_of_nat.induct)
  case (1 n)
  show ?case
  proof (cases "n < 10")
    case n: True
    show ?thesis
    proof (cases "m < 10")
      case True
      then show ?thesis
        using n "1.prems" digit_char_inj [of n m]
        by (simp add: string_of_nat.simps [of n] string_of_nat.simps [of m])
    next
      case False
      then show ?thesis
        using n "1.prems" string_of_nat_nonempty [of "m div 10"]
        by (simp add: string_of_nat.simps [of n] string_of_nat.simps [of m])
    qed
  next
    case n: False
    show ?thesis
    proof (cases "m < 10")
      case True
      then show ?thesis
        using n "1.prems" string_of_nat_nonempty [of "n div 10"]
        by (simp add: string_of_nat.simps [of n] string_of_nat.simps [of m])
    next
      case False
      then have "string_of_nat (n div 10) = string_of_nat (m div 10)"
        and d: "digit_char (n mod 10) = digit_char (m mod 10)"
        using n "1.prems"
        by (simp_all add: string_of_nat.simps [of n] string_of_nat.simps [of m])
      then have "n div 10 = m div 10" using "1.IH" n by simp
      moreover have "n mod 10 = m mod 10"
        using d digit_char_inj [of "n mod 10" "m mod 10"] by simp
      ultimately show ?thesis
        by (metis div_mult_mod_eq)
    qed
  qed
qed

lemma sep_unique:
  "c \<notin> set xs \<Longrightarrow> c \<notin> set xs' \<Longrightarrow> xs @ c # ys = xs' @ c # ys' \<Longrightarrow> xs = xs' \<and> ys = ys'"
proof (induction xs arbitrary: xs')
  case Nil
  then show ?case by (cases xs') auto
next
  case (Cons x xs)
  then show ?case by (cases xs') auto
qed

lemma paper_key_inj: "paper_key i = paper_key k \<longleftrightarrow> i = k"
  by (auto simp: paper_key_def dest: string_of_nat_inj)

lemma bullet_key_inj: "bullet_key i j = bullet_key k l \<longleftrightarrow> i = k \<and> j = l"
proof
  assume "bullet_key i j = bullet_key k l"
  then have "string_of_nat i @ CHR ''b'' # string_of_nat j = string_of_nat k @ CHR ''b'' # string_of_nat l"
    by (simp add: bullet_key_def)
  then have "string_of_nat i = string_of_nat k \<and> string_of_nat j = string_of_nat l"
    by (rule sep_unique [OF string_of_nat_no_b string_of_nat_no_b])
  then show "i = k \<and> j = l" by (auto dest: string_of_nat_inj)
qed simp

lemma paper_key_not_bullet_key: "paper_key i \<noteq> bullet_key k j"
proof
  assume "paper_key i = bullet_key k j"
  then have "string_of_nat i = string_of_nat k @ CHR ''b'' # string_of_nat j"
    by (simp add: paper_key_def bullet_key_def)
  then have "CHR ''b'' \<in> set (string_of_nat i)" by simp
  then show False using string_of_nat_no_b by simp
qed

lemma is_bullet_key_bullet_key: "is_bullet_key i (bullet_key k j) \<longleftrightarrow> i = k"
proof
  assume "is_bullet_key i (bullet_key k j)"
  then have "take (length (paper_key i @ ''b'')) (bullet_key k j) = paper_key i @ ''b''"
    by (simp add: is_bullet_key_def)
  then have "bullet_key k j = (paper_key i @ ''b'') @ drop (length (paper_key i @ ''b'')) (bullet_key k j)"
    by (metis append_take_drop_id)
  then obtain zs where "bullet_key k j = (paper_key i @ ''b'') @ zs" ..
  then have "string_of_nat k @ CHR ''b'' # string_of_nat j = string_of_nat i @ CHR ''b'' # zs"
    by (simp add: paper_key_def bullet_key_def)
  then have "string_of_nat k = string_of_nat i \<and> string_of_nat j = zs"
    by (rule sep_unique [OF string_of_nat_no_b string_of_nat_no_b])
  then show "i = k" by (auto dest: string_of_nat_inj)
next
  assume "i = k"
  then show "is_bullet_key i (bullet_key k j)"
    by (simp add: is_bullet_key_def paper_key_def bullet_key_def)
qed

lemma not_is_bullet_key_paper_key: "\<not> is_bullet_key i (paper_key k)"
proof
  assume "is_bullet_key i (paper_key k)"
  then have "take (length (paper_key i @ ''b'')) (paper_key k) = paper_key i @ ''b''"
    by (simp add: is_bullet_key_def)
  then have "paper_key k = (paper_key i @ ''b'') @ drop (length (paper_key i @ ''b'')) (paper_key k)"
    by (metis append_take_drop_id)
  then obtain zs where "paper_key k = (paper_key i @ ''b'') @ zs" ..
  then have "string_of_nat k = string_of_nat i @ CHR ''b'' # zs"
    by (simp add: paper_key_def)
  then have "CHR ''b'' \<in> set (string_of_nat k)" by simp
  then show False using string_of_nat_no_b by simp
qed

lemma string_of_nat_0: "string_of_nat 0 = ''0''"
  by (simp add: string_of_nat.simps digit_char_def)

lemma string_of_nat_1: "string_of_nat 1 = ''1''"
  by (simp add: string_of_nat.simps digit_char_def)

lemma string_of_nat_Suc_0: "string_of_nat (Suc 0) = ''1''"
  by (simp add: string_of_nat.simps digit_char_def)

subsection \<open>The loops\<close>

lemma nodes_of_append: "nodes_of (map Node ns @ map Edge es) = ns"
proof (induction ns)
  case Nil
  show ?case by (induction es) simp_all
qed simp

lemma edges_of_append: "edges_of (map Node ns @ map Edge es) = es"
proof (induction ns)
  case Nil
  show ?case by (induction es) simp_all
qed simp

lemma bullets_forEach_eq:
  "bullets_forEach i j bs (ns, es) =
     (ns @ map (\<lambda>(j, b). bullet_node i j b) (enumerate j bs),
      es @ map (\<lambda>(j, b). bullet_edge i j) (enumerate j bs))"
  by (induction bs arbitrary: j ns es) simp_all

lemma papers_forEach_eq:
  "papers_forEach r i ps (ns, es) =
     (ns @ concat (map (\<lambda>(k, p). block_nodes r k p) (enumerate i ps)),
      es @ concat (map (\<lambda>(k, p). block_edges r k p) (enumerate i ps)))"
  by (induction ps arbitrary: i ns es)
     (simp_all add: bullets_forEach_eq block_nodes_def block_edges_def)

lemma build_eq:
  "build r =
     (concat (map (\<lambda>(k, p). block_nodes r k p) (enumerate 0 (papers r))),
      concat (map (\<lambda>(k, p). block_edges r k p) (enumerate 0 (papers r))))"
  by (simp add: build_def papers_forEach_eq)

lemma nodes_of_build:
  "nodes_of (buildFlowElements (Some r)) =
     concat (map (\<lambda>(k, p). block_nodes r k p) (enumerate 0 (papers r)))"
  by (simp add: buildFlowElements_def build_eq nodes_of_append)

lemma edges_of_build:
  "edges_of (buildFlowElements (Some r)) =
     concat (map (\<lambda>(k, p). block_edges r k p) (enumerate 0 (papers r)))"
  by (simp add: buildFlowElements_def build_eq edges_of_append)

lemma filter_blocks_before:
  assumes "\<And>k p. k \<noteq> i \<Longrightarrow> filter P (f k p) = []"
  shows "i < i0 \<Longrightarrow> filter P (concat (map (\<lambda>(k, p). f k p) (enumerate i0 ps))) = []"
  by (induction ps arbitrary: i0) (simp_all add: assms)

lemma filter_blocks:
  assumes "\<And>k p. k \<noteq> i \<Longrightarrow> filter P (f k p) = []"
  shows "i0 \<le> i \<Longrightarrow> i < i0 + length ps \<Longrightarrow>
         filter P (concat (map (\<lambda>(k, p). f k p) (enumerate i0 ps))) = filter P (f i (ps ! (i - i0)))"
proof (induction ps arbitrary: i0)
  case Nil
  then show ?case by simp
next
  case (Cons p ps)
  show ?case
  proof (cases "i = i0")
    case True
    then show ?thesis
      using filter_blocks_before [of i P f "Suc i0" ps] assms by simp
  next
    case False
    then have "Suc i0 \<le> i" "i < Suc i0 + length ps" using Cons.prems by simp_all
    then have "filter P (concat (map (\<lambda>(k, p). f k p) (enumerate (Suc i0) ps)))
                 = filter P (f i (ps ! (i - Suc i0)))"
      by (rule Cons.IH)
    moreover have "(p # ps) ! (i - i0) = ps ! (i - Suc i0)"
      using False Cons.prems by (simp add: nth_Cons')
    ultimately show ?thesis using False assms [of i0 p] by simp
  qed
qed

lemma bullet_nodes_no_paper_key:
  "filter (\<lambda>n. node_id n = paper_key i) (map (\<lambda>(j, b). bullet_node k j b) xs) = []"
  by (induction xs) (auto simp: bullet_node_def paper_key_not_bullet_key [symmetric])

lemma bullet_nodes_bullet_key:
  "filter (\<lambda>n. is_bullet_key i (node_id n)) (map (\<lambda>(j, b). bullet_node k j b) xs) =
     (if k = i then map (\<lambda>(j, b). bullet_node k j b) xs else [])"
  by (induction xs) (auto simp: bullet_node_def is_bullet_key_bullet_key)

lemma bullet_edges_source:
  fixes xs :: "(nat \<times> string) list"
  shows "filter (\<lambda>e. source e = paper_key i) (map (\<lambda>(j, b). bullet_edge k j) xs) =
     (if k = i then map (\<lambda>(j, b). bullet_edge k j) xs else [])"
  by (induction xs) (auto simp: bullet_edge_def paper_key_inj)

lemma block_nodes_paper:
  "filter (\<lambda>n. node_id n = paper_key i) (block_nodes r k p) = (if k = i then [paper_node i p] else [])"
  unfolding block_nodes_def
  by (simp add: bullet_nodes_no_paper_key) (simp add: paper_node_def paper_key_inj)

lemma block_nodes_bullets:
  "filter (\<lambda>n. is_bullet_key i (node_id n)) (block_nodes r k p) =
     (if k = i then map (\<lambda>(j, b). bullet_node i j b) (enumerate 0 (bullets_at r i)) else [])"
  unfolding block_nodes_def
  by (simp add: bullet_nodes_bullet_key) (simp add: paper_node_def not_is_bullet_key_paper_key)

lemma block_edges_source:
  "filter (\<lambda>e. source e = paper_key i) (block_edges r k p) =
     (if k = i then map (\<lambda>(j, b). bullet_edge i j) (enumerate 0 (bullets_at r i)) else [])"
  unfolding block_edges_def
  by (simp add: bullet_edges_source)

subsection \<open>The shape of the graph\<close>

text \<open>
  On an aligned response the bullets read for the paper at index \<open>i\<close> are those of its
  digest. The builder returns a list for every response: it has no failing branch.
\<close>

lemma bullets_at_aligned:
  "i < length (summaries r) \<Longrightarrow> summaries r ! i = Some d \<Longrightarrow> bullets d = Some bs \<Longrightarrow>
     bullets_at r i = bs"
  by (simp add: bullets_at_def)

text \<open>
  Claim C6: for the paper at index \<open>i\<close>, whose digest has \<open>b\<close> bullets, the graph has
  exactly one node with that paper's key, exactly \<open>b\<close> bullet nodes of that paper and
  exactly \<open>b\<close> edges from the paper's node, the targets of these edges being the
  paper's bullet nodes; with no bullets that is one node and no edge.
\<close>

theorem graph_shape:
  assumes "i < length (papers r)"
  shows "filter (\<lambda>n. node_id n = paper_key i) (nodes_of (buildFlowElements (Some r)))
           = [paper_node i (papers r ! i)] \<and>
         filter (\<lambda>n. is_bullet_key i (node_id n)) (nodes_of (buildFlowElements (Some r)))
           = map (\<lambda>(j, b). bullet_node i j b) (enumerate 0 (bullets_at r i)) \<and>
         filter (\<lambda>e. source e = paper_key i) (edges_of (buildFlowElements (Some r)))
           = map (\<lambda>(j, b). bullet_edge i j) (enumerate 0 (bullets_at r i)) \<and>
         map target (filter (\<lambda>e. source e = paper_key i) (edges_of (buildFlowElements (Some r))))
           = map node_id (filter (\<lambda>n. is_bullet_key i (node_id n)) (nodes_of (buildFlowElements (Some r)))) \<and>
         length (filter (\<lambda>n. node_id n = paper_key i) (nodes_of (buildFlowElements (Some r)))) = 1 \<and>
         length (filter (\<lambda>n. is_bullet_key i (node_id n)) (nodes_of (buildFlowElements (Some r))))
           = length (bullets_at r i) \<and>
         length (filter (\<lambda>e. source e = paper_key i) (edges_of (buildFlowElements (Some r))))
           = length (bullets_at r i)"
proof -
  have i: "0 \<le> i" "i < 0 + length (papers r)" using assms by simp_all
  have a: "filter (\<lambda>n. node_id n = paper_key i) (nodes_of (buildFlowElements (Some r)))
           = [paper_node i (papers r ! i)]"
    unfolding nodes_of_build
    by (subst filter_blocks [where i = i, OF _ i]) (simp_all add: block_nodes_paper)
  have b: "filter (\<lambda>n. is_bullet_key i (node_id n)) (nodes_of (buildFlowElements (Some r)))
           = map (\<lambda>(j, b). bullet_node i j b) (enumerate 0 (bullets_at r i))"
    unfolding nodes_of_build
    by (subst filter_blocks [where i = i, OF _ i]) (simp_all add: block_nodes_bullets)
  have c: "filter (\<lambda>e. source e = paper_key i) (edges_of (buildFlowElements (Some r)))
           = map (\<lambda>(j, b). bullet_edge i j) (enumerate 0 (bullets_at r i))"
    unfolding edges_of_build
    by (subst filter_blocks [where i = i, OF _ i]) (simp_all add: block_edges_source)
  have d: "map target (map (\<lambda>(j, b). bullet_edge i j) xs) = map node_id (map (\<lambda>(j, b). bullet_node i j b) xs)" for xs
    by (induction xs) (auto simp: bullet_edge_def bullet_node_def)
  show ?thesis
    by (simp only: a b c d) simp
qed

theorem graph_shape_witness:
  "filter (\<lambda>n. node_id n = paper_key 1) (nodes_of (buildFlowElements (Some results_two)))
     = [\<lparr>node_id = ''p1'', node_type = Some ''default'', label = Some ''Trees'', position = (50, 80)\<rparr>] \<and>
   filter (\<lambda>n. is_bullet_key 1 (node_id n)) (nodes_of (buildFlowElements (Some results_two))) = [] \<and>
   filter (\<lambda>e. source e = paper_key 1) (edges_of (buildFlowElements (Some results_two))) = [] \<and>
   filter (\<lambda>n. is_bullet_key 0 (node_id n)) (nodes_of (buildFlowElements (Some results_two)))
     = [\<lparr>node_id = ''p0b0'', node_type = None, label = Some ''point one'', position = (350, 0)\<rparr>,
        \<lparr>node_id = ''p0b1'', node_type = None, label = Some ''point two'', position = (350, 20)\<rparr>] \<and>
   filter (\<lambda>e. source e = paper_key 0) (edges_of (buildFlowElements (Some results_two)))
     = [\<lparr>edge_id = ''e-0-0'', source = ''p0'', target = ''p0b0''\<rparr>,
        \<lparr>edge_id = ''e-0-1'', source = ''p0'', target = ''p0b1''\<rparr>]"
proof -
  have l: "0 < length (papers results_two)" "1 < length (papers results_two)"
    by (simp_all add: results_two_def)
  have b: "bullets_at results_two 0 = [''point one'', ''point two'']" "bullets_at results_two 1 = []"
    by (simp_all add: results_two_def bullets_at_def)
  have p: "papers results_two ! 1 = paper_no_link"
    by (simp add: results_two_def)
  note g0 = graph_shape [OF l(1), unfolded b]
  note g1 = graph_shape [OF l(2), unfolded b p]
  show ?thesis
    using g0 g1
    by (simp add: paper_node_def bullet_node_def bullet_edge_def paper_key_def bullet_key_def
        edge_key_def string_of_nat_0 string_of_nat_1 string_of_nat_Suc_0 paper_no_link_def)
qed

subsection \<open>Determinism\<close>

lemma map_bullet_nodes:
  "map (\<lambda>n. (node_id n, position n)) (map (\<lambda>(j, b). bullet_node k j b) (enumerate 0 bs))
     = map (\<lambda>j. (bullet_key k j, 350, k * 80 + j * 20)) [0..<length bs]"
proof -
  have "map (\<lambda>n. (node_id n, position n)) (map (\<lambda>(j, b). bullet_node k j b) xs)
          = map (\<lambda>j. (bullet_key k j, 350, k * 80 + j * 20)) (map fst xs)" for xs
    by (induction xs) (auto simp: bullet_node_def)
  from this [of "enumerate 0 bs"] show ?thesis by simp
qed

lemma map_bullet_edges:
  fixes bs :: "string list"
  shows "map (\<lambda>(j, b). bullet_edge k j) (enumerate 0 bs) = map (bullet_edge k) [0..<length bs]"
proof -
  have "map (\<lambda>(j, b). bullet_edge k j) xs = map (bullet_edge k) (map fst xs)"
    for xs :: "(nat \<times> string) list"
    by (induction xs) auto
  from this [of "enumerate 0 bs"] show ?thesis by simp
qed

lemma map_block_nodes:
  "map (\<lambda>n. (node_id n, position n)) (block_nodes r k p)
     = (paper_key k, 50, k * 80)
       # map (\<lambda>j. (bullet_key k j, 350, k * 80 + j * 20)) [0..<length (bullets_at r k)]"
proof -
  have "map (\<lambda>n. (node_id n, position n)) (block_nodes r k p)
          = (node_id (paper_node k p), position (paper_node k p))
            # map (\<lambda>n. (node_id n, position n))
                (map (\<lambda>(j, b). bullet_node k j b) (enumerate 0 (bullets_at r k)))"
    by (simp only: block_nodes_def list.map)
  also have "\<dots> = (paper_key k, 50, k * 80)
       # map (\<lambda>j. (bullet_key k j, 350, k * 80 + j * 20)) [0..<length (bullets_at r k)]"
    by (simp only: map_bullet_nodes) (simp add: paper_node_def)
  finally show ?thesis .
qed

lemma upt_block: "[i0..<i0 + length (p # ps)] = i0 # [Suc i0..<Suc i0 + length ps]"
  by (simp add: upt_rec)

lemma nodes_layout:
  "map (\<lambda>n. (node_id n, position n)) (concat (map (\<lambda>(k, p). block_nodes r k p) (enumerate i0 ps)))
     = concat (map (\<lambda>(i, b). (paper_key i, 50, i * 80)
                    # map (\<lambda>j. (bullet_key i j, 350, i * 80 + j * 20)) [0..<b])
                 (enumerate i0 (map (\<lambda>i. length (bullets_at r i)) [i0..<i0 + length ps])))"
proof (induction ps arbitrary: i0)
  case Nil
  then show ?case by simp
next
  case (Cons p ps)
  show ?case
    by (simp only: upt_block list.map enumerate_simps concat.simps map_append prod.case
        map_block_nodes Cons.IH)
qed

lemma edges_layout_eq:
  "concat (map (\<lambda>(k, p). block_edges r k p) (enumerate i0 ps))
     = concat (map (\<lambda>(i, b). map (bullet_edge i) [0..<b])
                 (enumerate i0 (map (\<lambda>i. length (bullets_at r i)) [i0..<i0 + length ps])))"
proof (induction ps arbitrary: i0)
  case Nil
  then show ?case by simp
next
  case (Cons p ps)
  have b: "block_edges r i0 p = map (bullet_edge i0) [0..<length (bullets_at r i0)]"
    by (simp only: block_edges_def map_bullet_edges)
  show ?case
    by (simp only: upt_block list.map enumerate_simps concat.simps prod.case b Cons.IH)
qed

lemma build_cong:
  assumes "papers r = papers r'" "summaries r = summaries r'"
  shows "build r = build r'"
proof -
  have "bullets_at r = bullets_at r'"
    using assms by (auto simp: bullets_at_def fun_eq_iff)
  then show ?thesis
    using assms by (simp add: build_eq block_nodes_def block_edges_def)
qed

text \<open>
  Claim C9: the graph depends on the papers and the summaries only, so two builds over
  the same papers and digests give the same graph; the keys and the positions of its
  nodes, and its edges, are functions of the indices \<open>i\<close> and \<open>(i, j)\<close> alone.
\<close>

theorem graph_deterministic:
  "(papers r = papers r' \<and> summaries r = summaries r' \<longrightarrow>
      buildFlowElements (Some r) = buildFlowElements (Some r')) \<and>
   map (\<lambda>n. (node_id n, position n)) (nodes_of (buildFlowElements (Some r))) = keys_layout (shape r) \<and>
   edges_of (buildFlowElements (Some r)) = edges_layout (shape r)"
proof -
  have "papers r = papers r' \<and> summaries r = summaries r' \<longrightarrow>
      buildFlowElements (Some r) = buildFlowElements (Some r')"
    by (auto simp: buildFlowElements_def dest: build_cong)
  moreover have "map (\<lambda>n. (node_id n, position n)) (nodes_of (buildFlowElements (Some r))) = keys_layout (shape r)"
    using nodes_layout [of r 0 "papers r"] by (simp add: nodes_of_build keys_layout_def shape_def)
  moreover have "edges_of (buildFlowElements (Some r)) = edges_layout (shape r)"
    using edges_layout_eq [of r 0 "papers r"] by (simp add: edges_of_build edges_layout_def shape_def)
  ultimately show ?thesis by simp
qed

theorem graph_deterministic_witness:
  "buildFlowElements (Some results_recited) = buildFlowElements (Some results_two) \<and>
   map (\<lambda>n. (node_id n, position n)) (nodes_of (buildFlowElements (Some results_two)))
     = [(''p0'', 50, 0), (''p0b0'', 350, 0), (''p0b1'', 350, 20), (''p1'', 50, 80)] \<and>
   map (\<lambda>n. (node_id n, position n)) (nodes_of (buildFlowElements (Some results_other)))
     = [(''p0'', 50, 0), (''p0b0'', 350, 0), (''p0b1'', 350, 20), (''p1'', 50, 80)]"
proof -
  have s: "shape results_two = [2, 0]" "shape results_other = [2, 0]"
    by (simp_all add: shape_def results_two_def results_other_def bullets_at_def upt_rec)
  have k: "keys_layout [2, 0] = [(''p0'', 50, 0), (''p0b0'', 350, 0), (''p0b1'', 350, 20), (''p1'', 50, 80)]"
    by (simp add: keys_layout_def upt_rec paper_key_def bullet_key_def string_of_nat_0 string_of_nat_1 string_of_nat_Suc_0)
  have e: "papers results_recited = papers results_two \<and> summaries results_recited = summaries results_two"
    by (simp add: results_recited_def)
  show ?thesis
    using graph_deterministic [of results_recited results_two] graph_deterministic [of results_two results_two]
      graph_deterministic [of results_other results_other]
    by (simp add: s k e)
qed

end
